theory Spec2Isabelle
  imports Complex_Main
begin

section \<open>Python strings\<close>

text \<open>
  A Python \<open>str\<close> is modelled as a \<open>string\<close>: a list of characters, each one a code
  point below 256. The functions below are the ones of \<open>str\<close>, \<open>os.path\<close> (POSIX) and
  \<open>json\<close> that \<open>src/train_infer/text_sample.py\<close> calls, restricted to that range.
\<close>

definition newline :: char where
  "newline = CHR 0x0A"

definition carriage_return :: char where
  "carriage_return = CHR 0x0D"

definition slash :: char where
  "slash = CHR ''/''"

text \<open>\<open>str.isspace\<close> on one character: the code points below 256 that Python treats as
  whitespace are 9 to 13, 28 to 32, 133 and 160.\<close>

definition isspace :: "char \<Rightarrow> bool" where
  "isspace c =
     (let n = (of_char c :: nat)
      in (9 \<le> n \<and> n \<le> 13) \<or> (28 \<le> n \<and> n \<le> 32) \<or> n = 133 \<or> n = 160)"

text \<open>\<open>s.strip()\<close>: leading and trailing whitespace removed.\<close>

definition strip :: "string \<Rightarrow> string" where
  "strip s = rev (dropWhile isspace (rev (dropWhile isspace s)))"

text \<open>\<open>s.split()\<close> without argument: the maximal runs of non-whitespace characters, in
  order; no empty string is produced. \<open>cur\<close> is the run being read.\<close>

fun split_from :: "string \<Rightarrow> string \<Rightarrow> string list" where
  "split_from cur [] = (if cur = [] then [] else [cur])"
| "split_from cur (c # cs) =
     (if isspace c then (if cur = [] then split_from [] cs else cur # split_from [] cs)
      else split_from (cur @ [c]) cs)"

definition split :: "string \<Rightarrow> string list" where
  "split s = split_from [] s"

text \<open>\<open>sep.join(xs)\<close>.\<close>

fun join :: "string \<Rightarrow> string list \<Rightarrow> string" where
  "join sep [] = []"
| "join sep [x] = x"
| "join sep (x # y # ys) = x @ sep @ join sep (y # ys)"

text \<open>\<open>str(n)\<close> for an integer: decimal digits, with a minus sign when negative.\<close>

definition digit_char :: "nat \<Rightarrow> char" where
  "digit_char d = char_of (48 + d)"

fun str_nat :: "nat \<Rightarrow> string" where
  "str_nat n = (if n < 10 then [digit_char n] else str_nat (n div 10) @ [digit_char (n mod 10)])"

declare str_nat.simps [simp del]

definition str_int :: "int \<Rightarrow> string" where
  "str_int i = (if i < 0 then CHR ''-'' # str_nat (nat (- i)) else str_nat (nat i))"

section \<open>Errors\<close>

text \<open>
  Every exception that the modelled lines can raise is a value. The failed \<open>assert\<close> of
  line 157 carries what its message is formatted from: the index \<open>i\<close>, the value
  \<open>jaccard\<close>, the two token sets and \<open>common\<close>.
\<close>

datatype error =
    AssertionError nat rat "string set" "string set" "string set"
  | IndexError
  | ZeroDivisionError
  | KeyError int
  | ValueError
  | FileNotFoundError string

section \<open>The sanity check of \<open>write_outputs\<close> (lines 151 to 157)\<close>

definition toks :: "string \<Rightarrow> string set" where
  "toks s = set (split s)"

text \<open>
  One iteration per reference line, in order, \<open>i\<close> counting from where \<open>enumerate\<close>
  starts. \<open>sentences[i]\<close> raises \<open>IndexError\<close> beyond the end of the list, and the
  division raises \<open>ZeroDivisionError\<close> when the union is empty. The quotient is kept
  exact: the comparison of the rounded double with the double nearest to 0.9 agrees with
  the exact comparison with 9/10 as long as the union has fewer than \<open>10^15\<close> elements.
\<close>

fun sanity_check :: "nat \<Rightarrow> string list \<Rightarrow> string list \<Rightarrow> error + unit" where
  "sanity_check i [] sentences = Inr ()"
| "sanity_check i (sanity_check_line # rest) sentences =
     (let sanity_check_line_toks = toks (strip sanity_check_line)
      in if length sentences \<le> i then Inl IndexError
         else
           let generated_sentence_toks = toks (sentences ! i);
               common = sanity_check_line_toks \<inter> generated_sentence_toks;
               un = sanity_check_line_toks \<union> generated_sentence_toks
           in if card un = 0 then Inl ZeroDivisionError
              else
                let jaccard = (of_nat (card common) :: rat) / of_nat (card un)
                in if jaccard > 9 / 10 then sanity_check (Suc i) rest sentences
                   else Inl (AssertionError i jaccard sanity_check_line_toks
                               generated_sentence_toks common))"


section \<open>Paths, files and JSON\<close>

text \<open>\<open>os.path.basename\<close>, \<open>os.path.split\<close> and \<open>os.path.join\<close> (with one component
  joined) of \<open>posixpath\<close>. \<open>path_head p\<close> is \<open>p[:i]\<close> and \<open>path_tail p\<close> is \<open>p[i:]\<close>
  for \<open>i = p.rfind('/') + 1\<close>.\<close>

definition path_head :: "string \<Rightarrow> string" where
  "path_head p = rev (dropWhile (\<lambda>c. c \<noteq> slash) (rev p))"

definition path_tail :: "string \<Rightarrow> string" where
  "path_tail p = rev (takeWhile (\<lambda>c. c \<noteq> slash) (rev p))"

definition rstrip_slash :: "string \<Rightarrow> string" where
  "rstrip_slash s = rev (dropWhile (\<lambda>c. c = slash) (rev s))"

definition basename :: "string \<Rightarrow> string" where
  "basename p = path_tail p"

definition path_split :: "string \<Rightarrow> string \<times> string" where
  "path_split p =
     (let head = path_head p; tail = path_tail p
      in (if head \<noteq> [] \<and> head \<noteq> replicate (length head) slash then rstrip_slash head
          else head, tail))"

definition path_join :: "string \<Rightarrow> string \<Rightarrow> string" where
  "path_join a b =
     (if b \<noteq> [] \<and> hd b = slash then b
      else if a = [] \<or> last a = slash then a @ b
      else a @ [slash] @ b)"

text \<open>\<open>json.dumps\<close> with its default settings, on a list of strings. A character is
  escaped when it is a backslash, a double quote or outside the printable ASCII range
  (\<open>ensure_ascii\<close>); the short escapes come first, the others are written as
  \<open>\u00XX\<close> in lower-case hexadecimal.\<close>

definition backslash :: char where
  "backslash = CHR 0x5C"

definition dquote :: char where
  "dquote = CHR 0x22"

definition hex_digit :: "nat \<Rightarrow> char" where
  "hex_digit d = (if d < 10 then char_of (48 + d) else char_of (87 + d))"

definition escape_char :: "char \<Rightarrow> string" where
  "escape_char c =
     (let n = (of_char c :: nat)
      in if c = backslash then [backslash, backslash]
         else if c = dquote then [backslash, dquote]
         else if 32 \<le> n \<and> n \<le> 126 then [c]
         else if n = 8 then [backslash, CHR ''b'']
         else if n = 12 then [backslash, CHR ''f'']
         else if n = 10 then [backslash, CHR ''n'']
         else if n = 13 then [backslash, CHR ''r'']
         else if n = 9 then [backslash, CHR ''t'']
         else [backslash, CHR ''u'', CHR ''0'', CHR ''0'', hex_digit (n div 16), hex_digit (n mod 16)])"

definition encode_basestring_ascii :: "string \<Rightarrow> string" where
  "encode_basestring_ascii s = [dquote] @ concat (map escape_char s) @ [dquote]"

definition json_dumps :: "string list \<Rightarrow> string" where
  "json_dumps xs = ''['' @ join '', '' (map encode_basestring_ascii xs) @ '']''"

text \<open>
  The reading side, after the JSON grammar, for stating what a written line holds: a string
  literal is read up to its closing quote, with the escapes of the grammar undone
  (\<open>\uXXXX\<close> for code points below 256 only), and \<open>json_loads_singleton\<close> reads an
  array of exactly one string. \<open>json_string_body\<close> takes the text after the opening
  quote and returns the string read and the text after the closing quote.
\<close>

definition hex_value :: "char \<Rightarrow> nat option" where
  "hex_value c =
     (let n = (of_char c :: nat)
      in if 48 \<le> n \<and> n \<le> 57 then Some (n - 48)
         else if 97 \<le> n \<and> n \<le> 102 then Some (n - 87)
         else if 65 \<le> n \<and> n \<le> 70 then Some (n - 55)
         else None)"

definition unescape_char :: "char \<Rightarrow> char option" where
  "unescape_char e =
     (if e = dquote then Some dquote
      else if e = backslash then Some backslash
      else if e = slash then Some slash
      else if e = CHR ''b'' then Some (char_of (8 :: nat))
      else if e = CHR ''f'' then Some (char_of (12 :: nat))
      else if e = CHR ''n'' then Some newline
      else if e = CHR ''r'' then Some carriage_return
      else if e = CHR ''t'' then Some (char_of (9 :: nat))
      else None)"

definition push_char :: "char \<Rightarrow> (string \<times> string) option \<Rightarrow> (string \<times> string) option" where
  "push_char c res = (case res of None \<Rightarrow> None | Some (s, r) \<Rightarrow> Some (c # s, r))"

fun json_string_body :: "string \<Rightarrow> (string \<times> string) option" where
  "json_string_body [] = None"
| "json_string_body (c # cs) =
     (if c = dquote then Some ([], cs)
      else if c = backslash then
        (case cs of
           [] \<Rightarrow> None
         | e # es \<Rightarrow>
             if e = CHR ''u'' then
               (case es of
                  h1 # h2 # h3 # h4 # rest \<Rightarrow>
                    (case (hex_value h1, hex_value h2, hex_value h3, hex_value h4) of
                       (Some a, Some b, Some c', Some d) \<Rightarrow>
                         if a = 0 \<and> b = 0 then push_char (char_of (c' * 16 + d)) (json_string_body rest)
                         else None
                     | _ \<Rightarrow> None)
                | _ \<Rightarrow> None)
             else
               (case unescape_char e of
                  None \<Rightarrow> None
                | Some ch \<Rightarrow> push_char ch (json_string_body es)))
      else if (of_char c :: nat) < 32 then None
      else push_char c (json_string_body cs))"

definition json_loads_singleton :: "string \<Rightarrow> string option" where
  "json_loads_singleton l =
     (case l of
        c1 # c2 # rest \<Rightarrow>
          if c1 = CHR ''['' \<and> c2 = dquote then
            (case json_string_body rest of
               None \<Rightarrow> None
             | Some (s, r) \<Rightarrow> if r = '']'' then Some s else None)
          else None
      | _ \<Rightarrow> None)"

text \<open>
  A file system holds the directories that exist and the content of every file, each
  under the path as it is spelled (no normalisation, no links). \<open>dirname\<close> is
  \<open>os.path.dirname\<close>. \<open>open(p, "w")\<close> raises \<open>FileNotFoundError\<close> when the directory of
  \<open>p\<close> does not exist, the current directory (an empty \<open>dirname\<close>) and the root
  existing always; otherwise the file is created or emptied. This is the one failure of
  opening that is modelled: permissions, a directory at the path of the file and a full
  disk are left out.
\<close>

record file_system =
  directories :: "string set"
  contents :: "string \<rightharpoonup> string"

definition dirname :: "string \<Rightarrow> string" where
  "dirname p = fst (path_split p)"

definition can_create :: "file_system \<Rightarrow> string \<Rightarrow> bool" where
  "can_create fsys p =
     (dirname p = replicate (length (dirname p)) slash \<or> dirname p \<in> directories fsys)"

definition put_file :: "file_system \<Rightarrow> string \<Rightarrow> string \<Rightarrow> file_system" where
  "put_file fsys p content = fsys\<lparr>contents := (contents fsys)(p \<mapsto> content)\<rparr>"

text \<open>Opening a file for reading in text mode translates \<open>\r\n\<close> and \<open>\r\<close> to \<open>\n\<close>;
  \<open>readlines\<close> cuts the content after each \<open>\n\<close> and keeps it.\<close>

fun universal_newlines :: "string \<Rightarrow> string" where
  "universal_newlines [] = []"
| "universal_newlines [c] = (if c = carriage_return then [newline] else [c])"
| "universal_newlines (c # d # ds) =
     (if c = carriage_return \<and> d = newline then newline # universal_newlines ds
      else if c = carriage_return then newline # universal_newlines (d # ds)
      else c # universal_newlines (d # ds))"

fun lines_from :: "string \<Rightarrow> string \<Rightarrow> string list" where
  "lines_from cur [] = (if cur = [] then [] else [cur])"
| "lines_from cur (c # cs) =
     (if c = newline then (cur @ [c]) # lines_from [] cs else lines_from (cur @ [c]) cs)"

definition keepends_lines :: "string \<Rightarrow> string list" where
  "keepends_lines content = lines_from [] content"

definition readlines :: "string \<Rightarrow> string list" where
  "readlines content = keepends_lines (universal_newlines content)"

section \<open>\<open>write_outputs\<close> (lines 128 to 157)\<close>

text \<open>
  The attributes of \<open>args\<close> that the modelled lines read. \<open>top_p\<close> is kept abstract, and
  the function \<open>fmt\<close> below is its rendering by the f-string of line 135. The record is
  extensible, as the namespace is: it may hold any further attribute.
\<close>

record 'p args =
  model_name_or_path :: string
  out_dir :: string
  top_p :: 'p
  diffusion_steps :: int
  batch_size :: int
  num_samples :: int
  mbr_sample :: int

definition model_base_name :: "('p, 'z) args_scheme \<Rightarrow> string" where
  "model_base_name a =
     basename (fst (path_split (model_name_or_path a))) @ ''.'' @ snd (path_split (model_name_or_path a))"

definition output_file_name :: "('p \<Rightarrow> string) \<Rightarrow> ('p, 'z) args_scheme \<Rightarrow> string" where
  "output_file_name fmt a =
     model_base_name a @ ''.samples_'' @ fmt (top_p a) @ ''.steps='' @ str_int (diffusion_steps a)"

definition output_file_basepath :: "('p \<Rightarrow> string) \<Rightarrow> ('p, 'z) args_scheme \<Rightarrow> string" where
  "output_file_basepath fmt a = path_join (out_dir a) (output_file_name fmt a)"

text \<open>The loop of lines 139 to 141: the state is the pair of what has been written to the
  text file and to the JSON file.\<close>

fun write_loop :: "string \<times> string \<Rightarrow> string list \<Rightarrow> string \<times> string" where
  "write_loop (text_fout, json_fout) [] = (text_fout, json_fout)"
| "write_loop (text_fout, json_fout) (generated_sentence # rest) =
     write_loop (text_fout @ generated_sentence @ [newline],
                 json_fout @ json_dumps [generated_sentence] @ [newline]) rest"

definition sanity_check_path :: string where
  "sanity_check_path = ''generation_outputs_emb128/two_steps_sanity_check.txt''"

text \<open>
  The function returns the file system it leaves behind and how it ends. The \<open>with\<close>
  statement of line 138 opens the text file and then the JSON file for writing; when the
  first cannot be opened nothing is written, and when the second cannot be opened the
  first is left empty. Both files are filled and closed before line 147 opens the
  reference file, which is then read from the file system as the writes left it.
\<close>

definition write_outputs ::
  "('p \<Rightarrow> string) \<Rightarrow> file_system \<Rightarrow> ('p, 'z) args_scheme \<Rightarrow> string list
     \<Rightarrow> file_system \<times> (error + unit)" where
  "write_outputs fmt fsys a sentences =
     (let base = output_file_basepath fmt a
      in if can_create fsys (base @ ''.txt'') then
           (let text_opened = put_file fsys (base @ ''.txt'') []
            in if can_create text_opened (base @ ''.json'') then
                 (let opened = put_file text_opened (base @ ''.json'') [];
                      written = write_loop ([], []) sentences;
                      closed = put_file (put_file opened (base @ ''.txt'') (fst written))
                                 (base @ ''.json'') (snd written)
                  in case contents closed sanity_check_path of
                       None \<Rightarrow> (closed, Inl (FileNotFoundError sanity_check_path))
                     | Some content \<Rightarrow> (closed, sanity_check 0 (readlines content) sentences))
               else (text_opened, Inl (FileNotFoundError (base @ ''.json''))))
         else (fsys, Inl (FileNotFoundError (base @ ''.txt''))))"

section \<open>\<open>main\<close>: the sampling loop (lines 71 to 99)\<close>

text \<open>
  A tensor is the list of its rows along the first axis; a row (one sequence of
  embeddings) has the abstract type \<open>'a\<close>. \<open>sample_fn r k\<close> is the tensor that the
  diffusion sampler returns on the worker of rank \<open>k\<close> in round \<open>r\<close>; the sampler itself
  (\<open>p_sample_loop\<close>, \<open>ddim_sample_loop\<close>) is not part of this file. \<open>W\<close> is
  \<open>dist.get_world_size()\<close>. After \<open>dist.all_gather\<close> the list \<open>gathered_samples\<close> holds,
  at position \<open>k\<close>, the tensor of rank \<open>k\<close>.
\<close>

definition all_gather :: "(nat \<Rightarrow> nat \<Rightarrow> 'a list) \<Rightarrow> nat \<Rightarrow> nat \<Rightarrow> 'a list list" where
  "all_gather sample_fn W r = map (sample_fn r) [0..<W]"

text \<open>The \<open>while\<close> loop of line 73. It need not end (a batch size of 0, or no worker), so
  its result is optional: \<open>None\<close> is the loop that runs forever. \<open>r\<close> counts the rounds
  done.\<close>

partial_function (option) sampling_loop ::
  "(nat \<Rightarrow> nat \<Rightarrow> 'a list) \<Rightarrow> nat \<Rightarrow> ('p, 'z) args_scheme \<Rightarrow> nat \<Rightarrow> 'a list list
     \<Rightarrow> (nat \<times> 'a list list) option" where
  "sampling_loop sample_fn W a r all_samples =
     (if int (length all_samples) * batch_size a < num_samples a
      then sampling_loop sample_fn W a (Suc r) (all_samples @ all_gather sample_fn W r)
      else Some (r, all_samples))"

text \<open>The states that the loop passes through, each one taken after a round (or before
  the first).\<close>

inductive loop_state ::
  "(nat \<Rightarrow> nat \<Rightarrow> 'a list) \<Rightarrow> nat \<Rightarrow> ('p, 'z) args_scheme \<Rightarrow> nat \<Rightarrow> 'a list list \<Rightarrow> bool"
  for sample_fn :: "nat \<Rightarrow> nat \<Rightarrow> 'a list" and W :: nat and a :: "('p, 'z) args_scheme" where
  start: "loop_state sample_fn W a 0 []"
| round: "loop_state sample_fn W a r all_samples
     \<Longrightarrow> int (length all_samples) * batch_size a < num_samples a
     \<Longrightarrow> loop_state sample_fn W a (Suc r) (all_samples @ all_gather sample_fn W r)"

text \<open>\<open>np.concatenate(all_samples, axis=0)\<close> raises \<open>ValueError\<close> on an empty list.\<close>

definition concatenate :: "'a list list \<Rightarrow> error + 'a list" where
  "concatenate arrays = (if arrays = [] then Inl ValueError else Inr (concat arrays))"

text \<open>The slice \<open>arr[:n]\<close>: a negative \<open>n\<close> counts from the end.\<close>

definition slice_to :: "int \<Rightarrow> 'a list \<Rightarrow> 'a list" where
  "slice_to n arr = (if 0 \<le> n then take (nat n) arr else take (nat (int (length arr) + n)) arr)"

text \<open>Lines 71 to 99 together: the corpus that is passed on to decoding.\<close>

definition collect ::
  "(nat \<Rightarrow> nat \<Rightarrow> 'a list) \<Rightarrow> nat \<Rightarrow> ('p, 'z) args_scheme \<Rightarrow> (error + 'a list) option" where
  "collect sample_fn W a =
     (case sampling_loop sample_fn W a 0 [] of
        None \<Rightarrow> None
      | Some (r, all_samples) \<Rightarrow>
          (case concatenate all_samples of
             Inl e \<Rightarrow> Some (Inl e)
           | Inr arr \<Rightarrow> Some (Inr (slice_to (num_samples a * mbr_sample a) arr))))"

section \<open>\<open>main\<close>: decoding (lines 108 to 112)\<close>

text \<open>
  \<open>cands.indices\<close> holds one vocabulary index per position of each sequence. The
  tokenizer is a dictionary from index to string, and \<open>tokenizer[x]\<close> raises \<open>KeyError\<close>
  for an index that it does not hold. The list comprehension of line 111 looks the
  indices up from left to right.
\<close>

fun lookup_tokens :: "(int \<rightharpoonup> string) \<Rightarrow> int list \<Rightarrow> error + string list" where
  "lookup_tokens tokenizer [] = Inr []"
| "lookup_tokens tokenizer (x # xs) =
     (case tokenizer x of
        None \<Rightarrow> Inl (KeyError x)
      | Some t \<Rightarrow>
          (case lookup_tokens tokenizer xs of
             Inl e \<Rightarrow> Inl e
           | Inr ts \<Rightarrow> Inr (t # ts)))"

definition decode_sentence :: "(int \<rightharpoonup> string) \<Rightarrow> int list \<Rightarrow> error + string" where
  "decode_sentence tokenizer seq =
     (case lookup_tokens tokenizer seq of
        Inl e \<Rightarrow> Inl e
      | Inr ts \<Rightarrow> Inr (join '' '' ts))"

fun decode_sentences :: "(int \<rightharpoonup> string) \<Rightarrow> int list list \<Rightarrow> error + string list" where
  "decode_sentences tokenizer [] = Inr []"
| "decode_sentences tokenizer (seq # seqs) =
     (case decode_sentence tokenizer seq of
        Inl e \<Rightarrow> Inl e
      | Inr decoded_sentence \<Rightarrow>
          (case decode_sentences tokenizer seqs of
             Inl e \<Rightarrow> Inl e
           | Inr decoded_sentences \<Rightarrow> Inr (decoded_sentence # decoded_sentences)))"

section \<open>Example inputs\<close>

text \<open>The configurations at which the properties below are evaluated: two samples per
  batch for three requested samples, and two samples per batch for two requested samples
  with a repetition factor of two.\<close>

definition example_args :: "unit args" where
  "example_args = \<lparr>model_name_or_path = ''ckpt/model.pt'', out_dir = ''out'', top_p = (),
     diffusion_steps = 2, batch_size = 2, num_samples = 3, mbr_sample = 1\<rparr>"

definition example_args_mbr :: "unit args" where
  "example_args_mbr = \<lparr>model_name_or_path = ''ckpt/model.pt'', out_dir = ''out'', top_p = (),
     diffusion_steps = 2, batch_size = 2, num_samples = 2, mbr_sample = 2\<rparr>"

text \<open>Two file systems: one with the directory \<open>out\<close> and a reference file of the given
  content, and one with no directory and no file.\<close>

definition example_fs :: "string \<Rightarrow> file_system" where
  "example_fs reference =
     \<lparr>directories = {''out''},
      contents = [''generation_outputs_emb128/two_steps_sanity_check.txt'' \<mapsto> reference]\<rparr>"

definition example_fs_no_dir :: file_system where
  "example_fs_no_dir = \<lparr>directories = {}, contents = Map.empty\<rparr>"

section \<open>Properties of the sanity check\<close>








section \<open>Properties of decoding\<close>

lemma lookup_tokens_first_missing:
  "\<forall>y \<in> set xs. tokenizer y \<noteq> None \<Longrightarrow> tokenizer x = None
   \<Longrightarrow> lookup_tokens tokenizer (xs @ x # ys) = Inl (KeyError x)"
  by (induction xs) auto

lemma lookup_tokens_Inr:
  "lookup_tokens tokenizer seq = Inr ts \<Longrightarrow> map tokenizer seq = map Some ts"
  by (induction seq arbitrary: ts) (auto split: option.splits sum.splits)

lemma lookup_tokens_Inl:
  "lookup_tokens tokenizer seq = Inl e \<Longrightarrow> \<exists>x \<in> set seq. tokenizer x = None \<and> e = KeyError x"
  by (induction seq) (auto split: option.splits sum.splits)

lemma lookup_tokens_missing:
  "x \<in> set seq \<Longrightarrow> tokenizer x = None
   \<Longrightarrow> \<exists>y \<in> set seq. tokenizer y = None \<and> lookup_tokens tokenizer seq = Inl (KeyError y)"
proof -
  assume a: "x \<in> set seq" "tokenizer x = None"
  show ?thesis
  proof (cases "lookup_tokens tokenizer seq")
    case (Inl e)
    with lookup_tokens_Inl [OF Inl] show ?thesis by auto
  next
    case (Inr ts)
    from lookup_tokens_Inr [OF Inr] have "set (map tokenizer seq) = set (map Some ts)" by simp
    moreover from a have "None \<in> set (map tokenizer seq)" by force
    ultimately show ?thesis by auto
  qed
qed

lemma decode_sentences_Inl:
  "decode_sentences tokenizer seqs = Inl e
   \<Longrightarrow> \<exists>seq \<in> set seqs. \<exists>x \<in> set seq. tokenizer x = None \<and> e = KeyError x"
  by (induction seqs) (auto simp: decode_sentence_def split: sum.splits dest: lookup_tokens_Inl)

lemma decode_sentences_Inr:
  "decode_sentences tokenizer seqs = Inr ss
   \<Longrightarrow> length ss = length seqs \<and>
       (\<forall>n < length seqs. \<exists>ts. map tokenizer (seqs ! n) = map Some ts \<and> ss ! n = join '' '' ts)"
proof (induction seqs arbitrary: ss)
  case Nil
  then show ?case by simp
next
  case (Cons seq seqs)
  from Cons.prems obtain s rest where s: "decode_sentence tokenizer seq = Inr s"
    and rest: "decode_sentences tokenizer seqs = Inr rest" and ss: "ss = s # rest"
    by (auto split: sum.splits)
  from s obtain ts where ts: "lookup_tokens tokenizer seq = Inr ts" "s = join '' '' ts"
    by (auto simp: decode_sentence_def split: sum.splits)
  from Cons.IH [OF rest] have ih: "length rest = length seqs"
    "\<forall>n < length seqs. \<exists>ts. map tokenizer (seqs ! n) = map Some ts \<and> rest ! n = join '' '' ts"
    by simp_all
  show ?case
  proof (intro conjI allI impI)
    show "length ss = length (seq # seqs)" using ss ih by simp
  next
    fix n assume n: "n < length (seq # seqs)"
    show "\<exists>ts. map tokenizer ((seq # seqs) ! n) = map Some ts \<and> ss ! n = join '' '' ts"
    proof (cases n)
      case 0
      with ts lookup_tokens_Inr [OF ts(1)] ss show ?thesis by auto
    next
      case (Suc m)
      with n ih ss show ?thesis by auto
    qed
  qed
qed

lemma decode_sentences_missing:
  "seq \<in> set seqs \<Longrightarrow> x \<in> set seq \<Longrightarrow> tokenizer x = None
   \<Longrightarrow> \<exists>y. tokenizer y = None \<and> decode_sentences tokenizer seqs = Inl (KeyError y)"
proof -
  assume a: "seq \<in> set seqs" "x \<in> set seq" "tokenizer x = None"
  show ?thesis
  proof (cases "decode_sentences tokenizer seqs")
    case (Inl e)
    with decode_sentences_Inl [OF Inl] show ?thesis by auto
  next
    case (Inr ss)
    from a(1) obtain n where n: "n < length seqs" "seqs ! n = seq"
      by (auto simp: in_set_conv_nth)
    with decode_sentences_Inr [OF Inr] obtain ts where "map tokenizer seq = map Some ts"
      by auto
    then have "set (map tokenizer seq) = set (map Some ts)" by simp
    moreover from a have "None \<in> set (map tokenizer seq)" by force
    ultimately show ?thesis by auto
  qed
qed

text \<open>
  Claim C8. Every display string comes from the tokenizer table: when decoding returns,
  each sentence is the space-joined list of the table's entries for its indices. An index
  without an entry ends decoding with the \<open>KeyError\<close> of the dictionary lookup, which
  nothing in \<open>main\<close> catches: a sequence whose first unmapped index is \<open>x\<close> fails with
  \<open>KeyError x\<close>, and a corpus that holds an unmapped index anywhere yields no sentences at
  all.
\<close>

theorem decode_unmapped_index:
  "(seq \<in> set seqs \<and> x \<in> set seq \<and> tokenizer x = None
      \<longrightarrow> (\<exists>y. tokenizer y = None \<and> decode_sentences tokenizer seqs = Inl (KeyError y)))
   \<and> ((\<forall>y \<in> set xs. tokenizer y \<noteq> None) \<and> tokenizer x = None
      \<longrightarrow> decode_sentence tokenizer (xs @ x # ys) = Inl (KeyError x))
   \<and> (decode_sentences tokenizer seqs = Inr ss
      \<longrightarrow> length ss = length seqs \<and>
          (\<forall>n < length seqs. \<exists>ts. map tokenizer (seqs ! n) = map Some ts \<and> ss ! n = join '' '' ts))"
  using decode_sentences_missing [of seq seqs x tokenizer]
    lookup_tokens_first_missing [of xs tokenizer x ys]
    decode_sentences_Inr [of tokenizer seqs ss]
  by (simp add: decode_sentence_def)

text \<open>The theorem on a table of two words: index 7 has no entry.\<close>

theorem decode_unmapped_index_witness:
  "decode_sentences [0 \<mapsto> ''the'', 1 \<mapsto> ''cat''] [[0, 1], [1, 7, 0]] = Inl (KeyError 7)
   \<and> decode_sentence [0 \<mapsto> ''the'', 1 \<mapsto> ''cat''] [1, 7, 0] = Inl (KeyError 7)
   \<and> decode_sentences [0 \<mapsto> ''the'', 1 \<mapsto> ''cat''] [[0, 1], [1]] = Inr [''the cat'', ''cat'']"
  using decode_unmapped_index [of "[1, 7, 0]" "[[0, 1], [1, 7, 0]]" 7 "[0 \<mapsto> ''the'', 1 \<mapsto> ''cat'']" "[1]" "[0]" "[]"]
    decode_unmapped_index [of "[1, 7, 0]" "[[0, 1], [1]]" 7 "[0 \<mapsto> ''the'', 1 \<mapsto> ''cat'']" "[1]" "[0]" "[''the cat'', ''cat'']"]
  by (simp add: decode_sentence_def)

section \<open>Properties of the sampling loop\<close>

lemma length_all_gather: "length (all_gather sample_fn W r) = W"
  by (simp add: all_gather_def)

lemma length_concat_const:
  "\<forall>x \<in> set xss. length x = n \<Longrightarrow> length (concat xss) = length xss * n"
  by (induction xss) auto

lemma rows_all_gather:
  "\<forall>k < W. length (sample_fn r k) = n \<Longrightarrow> length (concat (all_gather sample_fn W r)) = W * n"
  using length_concat_const [of "all_gather sample_fn W r" n]
  by (simp add: all_gather_def)

lemma loop_state_length: "loop_state sample_fn W a r all_samples \<Longrightarrow> length all_samples = r * W"
  by (induction rule: loop_state.induct) (simp_all add: length_all_gather)

lemma loop_state_rows:
  "loop_state sample_fn W a r all_samples
   \<Longrightarrow> \<forall>r k. k < W \<longrightarrow> length (sample_fn r k) = n
   \<Longrightarrow> length (concat all_samples) = r * W * n"
proof (induction rule: loop_state.induct)
  case start
  then show ?case by simp
next
  case (round r all_samples)
  then have "length (concat (all_gather sample_fn W r)) = W * n"
    by (intro rows_all_gather) simp
  with round show ?case by (simp add: algebra_simps)
qed

lemma sampling_loop_state_aux:
  assumes "sampling_loop sample_fn W a r0 all0 = Some y"
  shows "loop_state sample_fn W a r0 all0 \<longrightarrow>
       loop_state sample_fn W a (fst y) (snd y) \<and>
       \<not> int (length (snd y)) * batch_size a < num_samples a"
proof (rule sampling_loop.raw_induct
    [where P = "\<lambda>sample_fn W a r0 all0 y. loop_state sample_fn W a r0 all0 \<longrightarrow>
       loop_state sample_fn W a (fst y) (snd y) \<and>
       \<not> int (length (snd y)) * batch_size a < num_samples a", OF _ assms])
  fix f :: "(nat \<Rightarrow> nat \<Rightarrow> 'a list) \<Rightarrow> nat \<Rightarrow> ('b, 'c) args_scheme \<Rightarrow> nat \<Rightarrow> 'a list list
     \<Rightarrow> (nat \<times> 'a list list) option"
  fix sample_fn :: "nat \<Rightarrow> nat \<Rightarrow> 'a list" and W :: nat and a :: "('b, 'c) args_scheme"
    and r0 :: nat and all0 :: "'a list list" and y :: "nat \<times> 'a list list"
  assume ih: "\<And>sample_fn W a r0 all0 y. f sample_fn W a r0 all0 = Some y \<Longrightarrow>
       loop_state sample_fn W a r0 all0 \<longrightarrow>
       loop_state sample_fn W a (fst y) (snd y) \<and>
       \<not> int (length (snd y)) * batch_size a < num_samples a"
  assume body: "(if int (length all0) * batch_size a < num_samples a
      then f sample_fn W a (Suc r0) (all0 @ all_gather sample_fn W r0)
      else Some (r0, all0)) = Some y"
  show "loop_state sample_fn W a r0 all0 \<longrightarrow>
       loop_state sample_fn W a (fst y) (snd y) \<and>
       \<not> int (length (snd y)) * batch_size a < num_samples a"
  proof (cases "int (length all0) * batch_size a < num_samples a")
    case True
    with body have run: "f sample_fn W a (Suc r0) (all0 @ all_gather sample_fn W r0) = Some y"
      by simp
    show ?thesis
    proof
      assume "loop_state sample_fn W a r0 all0"
      then have "loop_state sample_fn W a (Suc r0) (all0 @ all_gather sample_fn W r0)"
        using True by (rule loop_state.round)
      with ih [OF run] show "loop_state sample_fn W a (fst y) (snd y) \<and>
          \<not> int (length (snd y)) * batch_size a < num_samples a"
        by blast
    qed
  next
    case False
    with body show ?thesis by auto
  qed
qed

lemma sampling_loop_state:
  "sampling_loop sample_fn W a 0 [] = Some (r, all_samples)
   \<Longrightarrow> loop_state sample_fn W a r all_samples \<and>
       \<not> int (length all_samples) * batch_size a < num_samples a"
  using sampling_loop_state_aux [of sample_fn W a 0 "[]" "(r, all_samples)"]
  by (simp add: loop_state.start)

lemma sampling_loop_terminates:
  assumes "1 \<le> batch_size a" "1 \<le> W"
  shows "\<exists>res. sampling_loop sample_fn W a r all_samples = Some res"
proof (induction "nat (num_samples a - int (length all_samples) * batch_size a)"
    arbitrary: r all_samples rule: less_induct)
  case less
  show ?case
  proof (cases "int (length all_samples) * batch_size a < num_samples a")
    case False
    then show ?thesis by (subst sampling_loop.simps) simp
  next
    case True
    let ?next = "all_samples @ all_gather sample_fn W r"
    have "int (length ?next) * batch_size a = int (length all_samples) * batch_size a + int W * batch_size a"
      by (simp add: length_all_gather algebra_simps)
    moreover have "1 \<le> int W * batch_size a"
    proof -
      from assms have "1 * 1 \<le> int W * batch_size a"
        by (intro mult_mono) simp_all
      then show ?thesis by simp
    qed
    ultimately have "nat (num_samples a - int (length ?next) * batch_size a)
        < nat (num_samples a - int (length all_samples) * batch_size a)"
      using True by linarith
    from less [OF this] obtain res where "sampling_loop sample_fn W a (Suc r) ?next = Some res"
      by blast
    with True show ?thesis by (subst sampling_loop.simps) simp
  qed
qed

lemma loop_state_count:
  assumes "loop_state sample_fn W a r all_samples"
    and "\<forall>r k. k < W \<longrightarrow> int (length (sample_fn r k)) = batch_size a"
  shows "int (length (concat all_samples)) = int r * batch_size a * int W"
proof -
  from assms(2) have "\<forall>r k. k < W \<longrightarrow> length (sample_fn r k) = nat (batch_size a)"
    by (metis nat_int)
  from loop_state_rows [OF assms(1) this]
  have len: "length (concat all_samples) = r * W * nat (batch_size a)" .
  show ?thesis
  proof (cases "W = 0")
    case True
    with len show ?thesis by simp
  next
    case False
    with assms(2) have "int (length (sample_fn 0 0)) = batch_size a" by simp
    then have "0 \<le> batch_size a" by linarith
    with len show ?thesis by (simp add: algebra_simps)
  qed
qed

lemma slice_to_nonneg: "0 \<le> n \<Longrightarrow> slice_to n arr = take (nat n) arr"
  by (simp add: slice_to_def)

text \<open>
  Claim C6. In every state that the sampling loop passes through (before the first round
  and after each round), and so in the state that it ends in, \<open>all_samples\<close> holds one
  array per worker and round; when every worker's sample has \<open>batch_size\<close> rows, the
  number of accumulated rows is rounds times batch size times worker count, a multiple of
  batch size times worker count.
\<close>

theorem gathered_count_invariant:
  "(loop_state sample_fn W a r all_samples \<and>
      (\<forall>r k. k < W \<longrightarrow> int (length (sample_fn r k)) = batch_size a)
    \<longrightarrow> length all_samples = r * W \<and>
        int (length (concat all_samples)) = int r * batch_size a * int W \<and>
        batch_size a * int W dvd int (length (concat all_samples)))
   \<and> (sampling_loop sample_fn W a 0 [] = Some (r, all_samples) \<and>
      (\<forall>r k. k < W \<longrightarrow> int (length (sample_fn r k)) = batch_size a)
    \<longrightarrow> length all_samples = r * W \<and>
        int (length (concat all_samples)) = int r * batch_size a * int W \<and>
        batch_size a * int W dvd int (length (concat all_samples)))"
proof -
  have inv: "length all_samples = r * W \<and>
        int (length (concat all_samples)) = int r * batch_size a * int W \<and>
        batch_size a * int W dvd int (length (concat all_samples))"
    if st: "loop_state sample_fn W a r all_samples"
      and sh: "\<forall>r k. k < W \<longrightarrow> int (length (sample_fn r k)) = batch_size a"
    for r all_samples
  proof -
    have c: "int (length (concat all_samples)) = int r * batch_size a * int W"
      by (rule loop_state_count [OF st sh])
    have "batch_size a * int W dvd int r * (batch_size a * int W)"
      by (rule dvd_mult) simp
    with c loop_state_length [OF st] show ?thesis by (simp add: mult.assoc)
  qed
  show ?thesis
    using inv sampling_loop_state [of sample_fn W a r all_samples] by blast
qed

text \<open>The theorem after the one round that two workers need for three samples in
  batches of two.\<close>

theorem gathered_count_invariant_witness:
  "loop_state (\<lambda>r k. [r, k]) 2 example_args 1 [[0, 0], [0, 1]]
   \<and> sampling_loop (\<lambda>r k. [r, k]) 2 example_args 0 [] = Some (1, [[0, 0], [0, 1]])
   \<and> int (length (concat [[0, 0], [0, 1 :: nat]])) = int 1 * batch_size example_args * int 2
   \<and> batch_size example_args * int 2 dvd int (length (concat [[0, 0], [0, 1 :: nat]]))"
proof -
  have "loop_state (\<lambda>r k. [r, k]) 2 example_args (Suc 0) ([] @ all_gather (\<lambda>r k. [r, k]) 2 0)"
    by (rule loop_state.round [OF loop_state.start]) (simp add: example_args_def)
  moreover have "all_gather (\<lambda>r k. [r, k]) 2 0 = [[0, 0], [0, 1]]"
    by (simp add: all_gather_def upt_rec)
  ultimately have st: "loop_state (\<lambda>r k. [r, k]) 2 example_args 1 [[0, 0], [0, 1]]"
    by simp
  have run: "sampling_loop (\<lambda>r k. [r, k]) 2 example_args 0 [] = Some (1, [[0, 0], [0, 1]])"
    apply (subst sampling_loop.simps)
    apply (subst sampling_loop.simps)
    apply (simp add: example_args_def all_gather_def upt_rec)
    done
  have sh: "\<forall>r k. k < (2::nat) \<longrightarrow> int (length ((\<lambda>r k. [r, k]) r k)) = batch_size example_args"
    by (simp add: example_args_def)
  from gathered_count_invariant [of "\<lambda>r k. [r, k]" 2 example_args 1 "[[0, 0], [0, 1]]"] st run sh
  show ?thesis by blast
qed

lemma loop_state_last_round:
  "loop_state sample_fn W a r all_samples \<Longrightarrow> r \<noteq> 0
   \<Longrightarrow> int ((r - 1) * W) * batch_size a < num_samples a"
proof (induction rule: loop_state.induct)
  case start
  then show ?case by simp
next
  case (round r all_samples)
  from loop_state_length [OF round.hyps(1)] round.hyps(2) show ?case by simp
qed

lemma collect_size:
  assumes n: "1 \<le> num_samples a" and m: "1 \<le> mbr_sample a"
    and b: "1 \<le> batch_size a" and w: "1 \<le> W"
    and sh: "\<forall>r k. k < W \<longrightarrow> int (length (sample_fn r k)) = batch_size a"
  shows "\<exists>r all_samples.
           sampling_loop sample_fn W a 0 [] = Some (r, all_samples) \<and>
           r \<noteq> 0 \<and>
           int (r - 1) * batch_size a * int W < num_samples a \<and>
           num_samples a \<le> int r * batch_size a * int W \<and>
           int (length (concat all_samples)) = int r * batch_size a * int W \<and>
           collect sample_fn W a =
             Some (Inr (take (nat (num_samples a * mbr_sample a)) (concat all_samples))) \<and>
           int (length (take (nat (num_samples a * mbr_sample a)) (concat all_samples))) =
             min (int r * batch_size a * int W) (num_samples a * mbr_sample a)"
proof -
  from sampling_loop_terminates [OF b w, of sample_fn 0 "[]"]
  obtain r all_samples where run: "sampling_loop sample_fn W a 0 [] = Some (r, all_samples)"
    by (cases) auto
  from sampling_loop_state [OF run]
  have st: "loop_state sample_fn W a r all_samples"
    and stop: "\<not> int (length all_samples) * batch_size a < num_samples a"
    by simp_all
  have cnt: "int (length (concat all_samples)) = int r * batch_size a * int W"
    by (rule loop_state_count [OF st sh])
  have len: "int (length all_samples) = int r * int W"
    using loop_state_length [OF st] by simp
  from stop len have enough: "num_samples a \<le> int r * batch_size a * int W"
    by (simp add: algebra_simps)
  have r0: "r \<noteq> 0"
  proof
    assume "r = 0"
    with enough have "num_samples a \<le> 0" by simp
    with n show False by simp
  qed
  from loop_state_last_round [OF st r0]
  have "int (r - 1) * int W * batch_size a < num_samples a"
    by (simp only: of_nat_mult)
  then have last: "int (r - 1) * batch_size a * int W < num_samples a"
    by (simp only: ac_simps)
  from n enough cnt have ne: "all_samples \<noteq> []" by auto
  from n m have nn: "0 \<le> num_samples a * mbr_sample a" by simp
  have col: "collect sample_fn W a =
      Some (Inr (take (nat (num_samples a * mbr_sample a)) (concat all_samples)))"
    using run ne nn by (simp add: collect_def concatenate_def slice_to_nonneg)
  have sz: "int (length (take (nat (num_samples a * mbr_sample a)) (concat all_samples))) =
      min (int r * batch_size a * int W) (num_samples a * mbr_sample a)"
    using nn cnt by simp
  from run r0 last enough cnt col sz show ?thesis by blast
qed

text \<open>
  Claim C2. The loop of line 73 collects until \<open>num_samples\<close> rows are there and does not
  look at \<open>mbr_sample\<close>, while the slice of line 99 cuts at \<open>num_samples * mbr_sample\<close>
  rows, so the corpus passed on has the smaller of the two counts (\<open>collect_size\<close>). At
  two requested samples, a repetition factor of two, batches of two and one worker, the
  loop stops after one round with two rows and the slice to four rows keeps those two:
  two samples are passed to decoding where the claim has four.
\<close>

theorem collect_short_of_target:
  "sampling_loop (\<lambda>r k. [r, k]) 1 example_args_mbr 0 [] = Some (1, [[0, 0]])
   \<and> collect (\<lambda>r k. [r, k]) 1 example_args_mbr = Some (Inr [0, 0])
   \<and> int (length [0, 0 :: nat]) = 2
   \<and> num_samples example_args_mbr * mbr_sample example_args_mbr = 4"
proof -
  have run: "sampling_loop (\<lambda>r k. [r, k]) 1 example_args_mbr 0 [] = Some (1, [[0, 0]])"
    apply (subst sampling_loop.simps)
    apply (subst sampling_loop.simps)
    apply (simp add: example_args_mbr_def all_gather_def upt_rec)
    done
  then show ?thesis
    by (simp add: collect_def concatenate_def slice_to_def example_args_mbr_def)
qed

section \<open>Properties of \<open>write_outputs\<close>\<close>

lemma write_loop_eq:
  "write_loop (t, j) sentences =
     (t @ concat (map (\<lambda>s. s @ [newline]) sentences),
      j @ concat (map (\<lambda>s. json_dumps [s] @ [newline]) sentences))"
  by (induction sentences arbitrary: t j) simp_all

lemma lines_from_no_newline:
  "newline \<notin> set l \<Longrightarrow> lines_from cur (l @ newline # rest) = (cur @ l @ [newline]) # lines_from [] rest"
  by (induction l arbitrary: cur) auto

lemma keepends_lines_concat:
  "\<forall>l \<in> set ls. newline \<notin> set l
   \<Longrightarrow> keepends_lines (concat (map (\<lambda>l. l @ [newline]) ls)) = map (\<lambda>l. l @ [newline]) ls"
  unfolding keepends_lines_def
  by (induction ls) (simp_all add: lines_from_no_newline)

lemma of_char_newline: "(of_char newline :: nat) = 10"
  by (simp add: newline_def)

lemma hex_digit_not_newline: "d < 16 \<Longrightarrow> hex_digit d \<noteq> newline"
proof
  assume d: "d < 16" and e: "hex_digit d = newline"
  then have "(of_char (hex_digit d) :: nat) = 10" by (simp add: of_char_newline)
  with d show False
    by (auto simp: hex_digit_def split: if_splits)
qed

lemma escape_char_no_newline: "newline \<notin> set (escape_char c)"
proof -
  have lt: "(of_char c :: nat) < 256" by simp
  then have a: "(of_char c :: nat) div 16 < 16" by arith
  have b: "(of_char c :: nat) mod 16 < 16" by simp
  have c10: "32 \<le> (of_char c :: nat) \<Longrightarrow> c \<noteq> newline"
    by (auto simp: of_char_newline)
  show ?thesis
    using hex_digit_not_newline [OF a] hex_digit_not_newline [OF b] c10
    by (auto simp: escape_char_def Let_def backslash_def dquote_def newline_def)
qed

lemma json_dumps_singleton: "json_dumps [s] = ''['' @ encode_basestring_ascii s @ '']''"
  by (simp add: json_dumps_def)

lemma json_dumps_no_newline: "newline \<notin> set (json_dumps [s])"
  using escape_char_no_newline
  by (auto simp: json_dumps_singleton encode_basestring_ascii_def dquote_def newline_def)

lemma path_join_suffix: "\<exists>x. path_join a b = x @ b"
proof (cases "b \<noteq> [] \<and> hd b = slash")
  case True
  then have "path_join a b = [] @ b" by (simp add: path_join_def)
  then show ?thesis by blast
next
  case False
  then have "path_join a b = a @ b \<or> path_join a b = (a @ [slash]) @ b"
    by (auto simp: path_join_def)
  then show ?thesis by blast
qed

lemma str_nat_last: "str_nat n \<noteq> [] \<and> last (str_nat n) = digit_char (n mod 10)"
  by (subst (1 2) str_nat.simps) simp

lemma str_int_last: "str_int i \<noteq> [] \<and> (\<exists>d < 10. last (str_int i) = digit_char d)"
proof -
  have "\<exists>d < 10. last (str_nat n) = digit_char d" for n
    using str_nat_last [of n] by (intro exI [of _ "n mod 10"]) simp
  then show ?thesis
    using str_nat_last by (simp add: str_int_def)
qed

lemma digit_char_not_k: "d < 10 \<Longrightarrow> digit_char d \<noteq> CHR ''k''"
proof
  assume d: "d < 10" and e: "digit_char d = CHR ''k''"
  from e have "(of_char (digit_char d) :: nat) = of_char (CHR ''k'')" by simp
  with d show False by (simp add: digit_char_def)
qed

lemma output_file_basepath_last:
  "output_file_basepath fmt a \<noteq> [] \<and> last (output_file_basepath fmt a) \<noteq> CHR ''k''"
proof -
  obtain x where x: "output_file_basepath fmt a = x @ output_file_name fmt a"
    unfolding output_file_basepath_def using path_join_suffix by blast
  obtain y where y: "output_file_name fmt a = y @ str_int (diffusion_steps a)"
    unfolding output_file_name_def by (metis append.assoc)
  from str_int_last [of "diffusion_steps a"] obtain d where
    d: "str_int (diffusion_steps a) \<noteq> []" "d < 10" "last (str_int (diffusion_steps a)) = digit_char d"
    by blast
  from x y d show ?thesis
    using digit_char_not_k [OF d(2)] by simp
qed

lemma txt_path_not_sanity: "output_file_basepath fmt a @ ''.txt'' \<noteq> sanity_check_path"
proof
  assume e: "output_file_basepath fmt a @ ''.txt'' = sanity_check_path"
  have "sanity_check_path = ''generation_outputs_emb128/two_steps_sanity_check'' @ ''.txt''"
    by (simp add: sanity_check_path_def)
  with e have "output_file_basepath fmt a @ ''.txt'' =
      ''generation_outputs_emb128/two_steps_sanity_check'' @ ''.txt''"
    by (simp only:)
  then have "output_file_basepath fmt a = ''generation_outputs_emb128/two_steps_sanity_check''"
    by (simp only: append_same_eq)
  then have "last (output_file_basepath fmt a) = CHR ''k''" by simp
  with output_file_basepath_last [of fmt a] show False by simp
qed

lemma json_path_not_sanity: "output_file_basepath fmt a @ ''.json'' \<noteq> sanity_check_path"
proof
  assume e: "output_file_basepath fmt a @ ''.json'' = sanity_check_path"
  then have "last (output_file_basepath fmt a @ ''.json'') = last sanity_check_path" by simp
  then show False by (simp add: sanity_check_path_def)
qed

lemma txt_path_not_json: "(b :: string) @ ''.txt'' \<noteq> b @ ''.json''"
  by simp

lemma hex_value_hex_digit: "d < 16 \<Longrightarrow> hex_value (hex_digit d) = Some d"
  by (auto simp: hex_value_def hex_digit_def Let_def)

lemma hex_value_zero: "hex_value (CHR ''0'') = Some 0"
  by (simp add: hex_value_def)

lemma char_of_of_char_nat: "char_of (of_char c :: nat) = c"
  by simp

lemma json_string_body_escape_char:
  "json_string_body (escape_char c @ rest) = push_char c (json_string_body rest)"
proof -
  let ?n = "of_char c :: nat"
  have lt: "?n < 256" by simp
  then have a: "?n div 16 < 16" by arith
  have b: "?n mod 16 < 16" by simp
  have split: "?n div 16 * 16 + ?n mod 16 = ?n" by simp
  consider (bs) "c = backslash" | (dq) "c = dquote"
    | (pr) "c \<noteq> backslash" "c \<noteq> dquote" "32 \<le> ?n \<and> ?n \<le> 126"
    | (b8) "?n = 8" | (b12) "?n = 12" | (b10) "?n = 10" | (b13) "?n = 13" | (b9) "?n = 9"
    | (u) "c \<noteq> backslash" "c \<noteq> dquote" "\<not> (32 \<le> ?n \<and> ?n \<le> 126)"
        "?n \<noteq> 8" "?n \<noteq> 12" "?n \<noteq> 10" "?n \<noteq> 13" "?n \<noteq> 9"
    by blast
  then show ?thesis
  proof cases
    case bs
    then show ?thesis
      by (simp add: escape_char_def unescape_char_def backslash_def dquote_def)
  next
    case dq
    then show ?thesis
      by (simp add: escape_char_def unescape_char_def backslash_def dquote_def)
  next
    case pr
    then show ?thesis
      by (simp add: escape_char_def Let_def)
  next
    case b8
    then have "c = char_of (8::nat)" by (metis char_of_of_char_nat)
    then show ?thesis
      by (simp add: escape_char_def unescape_char_def backslash_def dquote_def slash_def Let_def)
  next
    case b12
    then have "c = char_of (12::nat)" by (metis char_of_of_char_nat)
    then show ?thesis
      by (simp add: escape_char_def unescape_char_def backslash_def dquote_def slash_def Let_def)
  next
    case b10
    then have "(of_char c :: nat) = of_char newline" by (simp add: newline_def)
    then have "c = newline" by (simp only: of_char_eq_iff)
    then show ?thesis
      by (simp add: escape_char_def unescape_char_def backslash_def dquote_def slash_def Let_def
          newline_def)
  next
    case b13
    then have "(of_char c :: nat) = of_char carriage_return" by (simp add: carriage_return_def)
    then have "c = carriage_return" by (simp only: of_char_eq_iff)
    then show ?thesis
      by (simp add: escape_char_def unescape_char_def backslash_def dquote_def slash_def Let_def
          carriage_return_def)
  next
    case b9
    then have "c = char_of (9::nat)" by (metis char_of_of_char_nat)
    then show ?thesis
      by (simp add: escape_char_def unescape_char_def backslash_def dquote_def slash_def Let_def)
  next
    case u
    have e: "escape_char c =
        [backslash, CHR ''u'', CHR ''0'', CHR ''0'', hex_digit (?n div 16), hex_digit (?n mod 16)]"
      using u by (simp add: escape_char_def Let_def)
    have "json_string_body ([backslash, CHR ''u'', CHR ''0'', CHR ''0'', hex_digit (?n div 16),
        hex_digit (?n mod 16)] @ rest) = push_char (char_of (?n div 16 * 16 + ?n mod 16)) (json_string_body rest)"
      by (simp add: hex_value_zero hex_value_hex_digit [OF a] hex_value_hex_digit [OF b]
          backslash_def dquote_def)
    with e split show ?thesis by (simp only: char_of_of_char_nat)
  qed
qed

lemma json_string_body_encode:
  "json_string_body (concat (map escape_char s) @ dquote # rest) = Some (s, rest)"
proof (induction s)
  case Nil
  then show ?case by simp
next
  case (Cons c s)
  have "json_string_body (concat (map escape_char (c # s)) @ dquote # rest) =
      json_string_body (escape_char c @ (concat (map escape_char s) @ dquote # rest))"
    by simp
  also have "\<dots> = push_char c (json_string_body (concat (map escape_char s) @ dquote # rest))"
    by (rule json_string_body_escape_char)
  also have "\<dots> = Some (c # s, rest)"
    by (simp add: Cons.IH push_char_def)
  finally show ?case .
qed

lemma json_loads_dumps: "json_loads_singleton (json_dumps [s]) = Some s"
  using json_string_body_encode [of s "'']''"]
  by (simp add: json_loads_singleton_def json_dumps_singleton encode_basestring_ascii_def)

lemma str_int_2: "str_int 2 = ''2''"
  by code_simp

lemma keepends_lines_json:
  "keepends_lines (concat (map (\<lambda>s. json_dumps [s] @ [newline]) sentences)) =
     map (\<lambda>s. json_dumps [s] @ [newline]) sentences"
  using keepends_lines_concat [of "map (\<lambda>s. json_dumps [s]) sentences"] json_dumps_no_newline
  by (simp add: comp_def)

lemma example_sanity_lines:
  "readlines (''the cat sat'' @ [newline]) = [''the cat sat'' @ [newline]]"
  by (simp add: readlines_def keepends_lines_def newline_def carriage_return_def)

lemma example_failure:
  "sanity_check 0 [''the cat sat'' @ [newline]] [''the cat sit''] =
     Inl (AssertionError 0 (1 / 2) {''the'', ''cat'', ''sat''} {''the'', ''cat'', ''sit''}
           {''the'', ''cat''})"
  by (simp add: toks_def split_def isspace_def strip_def Let_def insert_commute newline_def)

lemma path_head_append:
  assumes "slash \<notin> set s"
  shows "path_head (p @ s) = path_head p"
proof -
  have "dropWhile (\<lambda>c. c \<noteq> slash) (rev s @ rev p) = dropWhile (\<lambda>c. c \<noteq> slash) (rev p)"
    by (rule dropWhile_append2) (use assms in auto)
  then show ?thesis by (simp add: path_head_def)
qed

lemma dirname_append: "slash \<notin> set s \<Longrightarrow> dirname (p @ s) = dirname p"
  by (simp add: dirname_def path_split_def Let_def path_head_append)

lemma dirname_txt: "dirname (b @ ''.txt'') = dirname b"
  by (rule dirname_append) (simp add: slash_def)

lemma dirname_json: "dirname (b @ ''.json'') = dirname b"
  by (rule dirname_append) (simp add: slash_def)

lemma can_create_json: "can_create fsys (b @ ''.json'') = can_create fsys (b @ ''.txt'')"
  by (simp add: can_create_def dirname_txt dirname_json)

lemma can_create_put_file: "can_create (put_file fsys p c) q = can_create fsys q"
  by (simp add: can_create_def put_file_def)

lemma write_outputs_opened:
  assumes "can_create fsys (output_file_basepath fmt a @ ''.txt'')"
  shows "write_outputs fmt fsys a sentences =
     (fsys\<lparr>contents := (contents fsys)
         (output_file_basepath fmt a @ ''.txt'' \<mapsto> concat (map (\<lambda>s. s @ [newline]) sentences),
          output_file_basepath fmt a @ ''.json'' \<mapsto>
            concat (map (\<lambda>s. json_dumps [s] @ [newline]) sentences))\<rparr>,
      case contents fsys sanity_check_path of
        None \<Rightarrow> Inl (FileNotFoundError sanity_check_path)
      | Some content \<Rightarrow> sanity_check 0 (readlines content) sentences)"
proof -
  let ?b = "output_file_basepath fmt a"
  have j: "can_create (put_file fsys (?b @ ''.txt'') []) (?b @ ''.json'')"
    using assms by (simp add: can_create_put_file can_create_json)
  have ne: "?b @ ''.txt'' \<noteq> sanity_check_path" "?b @ ''.json'' \<noteq> sanity_check_path"
    by (rule txt_path_not_sanity, rule json_path_not_sanity)
  have closed: "put_file (put_file (put_file (put_file fsys (?b @ ''.txt'') []) (?b @ ''.json'') [])
        (?b @ ''.txt'') (concat (map (\<lambda>s. s @ [newline]) sentences)))
        (?b @ ''.json'') (concat (map (\<lambda>s. json_dumps [s] @ [newline]) sentences)) =
      fsys\<lparr>contents := (contents fsys)
         (?b @ ''.txt'' \<mapsto> concat (map (\<lambda>s. s @ [newline]) sentences),
          ?b @ ''.json'' \<mapsto> concat (map (\<lambda>s. json_dumps [s] @ [newline]) sentences))\<rparr>"
    by (simp add: put_file_def fun_upd_twist)
  have rd: "contents (fsys\<lparr>contents := (contents fsys)
         (?b @ ''.txt'' \<mapsto> concat (map (\<lambda>s. s @ [newline]) sentences),
          ?b @ ''.json'' \<mapsto> concat (map (\<lambda>s. json_dumps [s] @ [newline]) sentences))\<rparr>)
        sanity_check_path = contents fsys sanity_check_path"
    using ne by simp
  show ?thesis
    unfolding write_outputs_def Let_def
    by (simp only: assms j if_True write_loop_eq fst_conv snd_conv append_Nil closed rd)
      (simp split: option.splits)
qed

lemma write_outputs_not_opened:
  "\<not> can_create fsys (output_file_basepath fmt a @ ''.txt'')
   \<Longrightarrow> write_outputs fmt fsys a sentences =
         (fsys, Inl (FileNotFoundError (output_file_basepath fmt a @ ''.txt'')))"
  by (simp add: write_outputs_def Let_def)

lemma write_outputs_validated:
  "snd (write_outputs fmt fsys a sentences) \<noteq> Inl (FileNotFoundError (output_file_basepath fmt a @ ''.txt''))
   \<Longrightarrow> can_create fsys (output_file_basepath fmt a @ ''.txt'')"
proof (rule ccontr)
  assume r: "snd (write_outputs fmt fsys a sentences) \<noteq>
      Inl (FileNotFoundError (output_file_basepath fmt a @ ''.txt''))"
    and n: "\<not> can_create fsys (output_file_basepath fmt a @ ''.txt'')"
  from write_outputs_not_opened [OF n, of sentences] r show False by simp
qed

lemma example_basepath:
  "output_file_basepath (\<lambda>_. ''1.0'') example_args = ''out/ckpt.model.pt.samples_1.0.steps=2''"
  by (simp add: output_file_basepath_def output_file_name_def model_base_name_def path_join_def
      path_split_def path_head_def path_tail_def rstrip_slash_def basename_def slash_def
      example_args_def str_int_2 Let_def)

lemma example_basepath_mbr:
  "output_file_basepath (\<lambda>_. ''0.5'') example_args_mbr = ''out/ckpt.model.pt.samples_0.5.steps=2''"
  by (simp add: output_file_basepath_def output_file_name_def model_base_name_def path_join_def
      path_split_def path_head_def path_tail_def rstrip_slash_def basename_def slash_def
      example_args_mbr_def str_int_2 Let_def)

lemma example_dirname:
  "dirname ''out/ckpt.model.pt.samples_1.0.steps=2.txt'' = ''out''"
  "dirname ''out/ckpt.model.pt.samples_0.5.steps=2.txt'' = ''out''"
  by (simp_all add: dirname_def path_split_def path_head_def path_tail_def rstrip_slash_def
      slash_def Let_def)

lemma example_can_create:
  "can_create (example_fs reference) (output_file_basepath (\<lambda>_. ''1.0'') example_args @ ''.txt'')"
  "can_create (example_fs reference) (output_file_basepath (\<lambda>_. ''0.5'') example_args_mbr @ ''.txt'')"
  by (simp_all add: can_create_def example_basepath example_basepath_mbr example_dirname
      example_fs_def)

lemma example_cannot_create:
  "\<not> can_create example_fs_no_dir (output_file_basepath (\<lambda>_. ''1.0'') example_args @ ''.txt'')"
  by (simp add: can_create_def example_basepath example_dirname example_fs_no_dir_def slash_def)

lemma example_run:
  "write_outputs (\<lambda>_. ''1.0'') (example_fs (''the cat sat'' @ [newline])) example_args
       [''the cat sit''] =
     ((example_fs (''the cat sat'' @ [newline]))
        \<lparr>contents := (contents (example_fs (''the cat sat'' @ [newline])))
           (''out/ckpt.model.pt.samples_1.0.steps=2.txt'' \<mapsto> ''the cat sit'' @ [newline],
            ''out/ckpt.model.pt.samples_1.0.steps=2.json'' \<mapsto>
               [CHR ''['', dquote] @ ''the cat sit'' @ [dquote, CHR '']'', newline])\<rparr>,
      Inl (AssertionError 0 (1 / 2) {''the'', ''cat'', ''sat''} {''the'', ''cat'', ''sit''}
            {''the'', ''cat''}))"
proof -
  have js: "json_dumps [''the cat sit''] = [CHR ''['', dquote] @ ''the cat sit'' @ [dquote, CHR '']'']"
    by (simp add: json_dumps_def encode_basestring_ascii_def escape_char_def backslash_def
        dquote_def)
  have rd: "contents (example_fs (''the cat sat'' @ [newline])) sanity_check_path =
      Some (''the cat sat'' @ [newline])"
    by (simp add: example_fs_def sanity_check_path_def)
  show ?thesis
    by (simp only: write_outputs_opened [OF example_can_create(1)] rd option.case
        example_sanity_lines example_failure)
      (simp add: example_basepath js)
qed

text \<open>
  Claim C4, as the code has it. When the text file can be opened (the directory of the
  output path exists), the text file holds each sentence followed by a line feed and the
  JSON file holds \<open>json.dumps\<close> of the one-element list of each sentence followed by a
  line feed, both in the order of the input; when it cannot, \<open>write_outputs\<close> ends with
  \<open>FileNotFoundError\<close> and leaves the file system as it was. The JSON file has one line
  per sentence, and each line reads back as the array of exactly that sentence. The text
  file has one line per sentence when no sentence contains a line feed. The path of the
  files is \<open>out_dir\<close> joined with a name that is a function of the model path, the top-p
  value and the step count, so that configurations that agree on these (and on
  \<open>out_dir\<close>) write to the same path.
\<close>

theorem write_outputs_format:
  "(can_create fsys (output_file_basepath fmt a @ ''.txt'')
      \<longrightarrow> contents (fst (write_outputs fmt fsys a sentences)) (output_file_basepath fmt a @ ''.txt'') =
            Some (concat (map (\<lambda>s. s @ [newline]) sentences))
          \<and> contents (fst (write_outputs fmt fsys a sentences)) (output_file_basepath fmt a @ ''.json'') =
            Some (concat (map (\<lambda>s. json_dumps [s] @ [newline]) sentences)))
   \<and> (\<not> can_create fsys (output_file_basepath fmt a @ ''.txt'')
      \<longrightarrow> write_outputs fmt fsys a sentences =
            (fsys, Inl (FileNotFoundError (output_file_basepath fmt a @ ''.txt''))))
   \<and> keepends_lines (concat (map (\<lambda>s. json_dumps [s] @ [newline]) sentences)) =
       map (\<lambda>s. json_dumps [s] @ [newline]) sentences
   \<and> map (\<lambda>s. json_loads_singleton (json_dumps [s])) sentences = map Some sentences
   \<and> ((\<forall>s \<in> set sentences. newline \<notin> set s)
      \<longrightarrow> keepends_lines (concat (map (\<lambda>s. s @ [newline]) sentences)) =
            map (\<lambda>s. s @ [newline]) sentences)
   \<and> output_file_basepath fmt a = path_join (out_dir a) (output_file_name fmt a)
   \<and> (model_name_or_path a = model_name_or_path b \<and> top_p a = top_p b \<and>
        diffusion_steps a = diffusion_steps b
      \<longrightarrow> output_file_name fmt a = output_file_name fmt b)
   \<and> (model_name_or_path a = model_name_or_path b \<and> top_p a = top_p b \<and>
        diffusion_steps a = diffusion_steps b \<and> out_dir a = out_dir b
      \<longrightarrow> output_file_basepath fmt a = output_file_basepath fmt b)"
proof (intro conjI impI)
  assume c: "can_create fsys (output_file_basepath fmt a @ ''.txt'')"
  show "contents (fst (write_outputs fmt fsys a sentences)) (output_file_basepath fmt a @ ''.txt'') =
            Some (concat (map (\<lambda>s. s @ [newline]) sentences))"
    by (simp add: write_outputs_opened [OF c])
  show "contents (fst (write_outputs fmt fsys a sentences)) (output_file_basepath fmt a @ ''.json'') =
            Some (concat (map (\<lambda>s. json_dumps [s] @ [newline]) sentences))"
    by (simp add: write_outputs_opened [OF c])
next
  assume "\<not> can_create fsys (output_file_basepath fmt a @ ''.txt'')"
  then show "write_outputs fmt fsys a sentences =
            (fsys, Inl (FileNotFoundError (output_file_basepath fmt a @ ''.txt'')))"
    by (rule write_outputs_not_opened)
next
  show "keepends_lines (concat (map (\<lambda>s. json_dumps [s] @ [newline]) sentences)) =
       map (\<lambda>s. json_dumps [s] @ [newline]) sentences"
    by (rule keepends_lines_json)
  show "map (\<lambda>s. json_loads_singleton (json_dumps [s])) sentences = map Some sentences"
    by (simp add: json_loads_dumps)
  show "keepends_lines (concat (map (\<lambda>s. s @ [newline]) sentences)) =
            map (\<lambda>s. s @ [newline]) sentences"
    if "\<forall>s \<in> set sentences. newline \<notin> set s"
    using that by (rule keepends_lines_concat)
  show "output_file_basepath fmt a = path_join (out_dir a) (output_file_name fmt a)"
    by (simp add: output_file_basepath_def)
  show "output_file_name fmt a = output_file_name fmt b"
    if "model_name_or_path a = model_name_or_path b \<and> top_p a = top_p b \<and>
        diffusion_steps a = diffusion_steps b"
    using that by (simp add: output_file_name_def model_base_name_def)
  show "output_file_basepath fmt a = output_file_basepath fmt b"
    if "model_name_or_path a = model_name_or_path b \<and> top_p a = top_p b \<and>
        diffusion_steps a = diffusion_steps b \<and> out_dir a = out_dir b"
    using that by (simp add: output_file_basepath_def output_file_name_def model_base_name_def)
qed

text \<open>The theorem on two sentences, written where the directory \<open>out\<close> exists and
  where it does not.\<close>

theorem write_outputs_format_witness:
  "contents (fst (write_outputs (\<lambda>_. ''1.0'') (example_fs []) example_args [''the cat'', ''sat'']))
       ''out/ckpt.model.pt.samples_1.0.steps=2.txt'' =
     Some (''the cat'' @ [newline] @ ''sat'' @ [newline])
   \<and> contents (fst (write_outputs (\<lambda>_. ''1.0'') (example_fs []) example_args [''the cat'', ''sat'']))
       ''out/ckpt.model.pt.samples_1.0.steps=2.json'' =
     Some ([CHR ''['', dquote] @ ''the cat'' @ [dquote, CHR '']'', newline] @
           [CHR ''['', dquote] @ ''sat'' @ [dquote, CHR '']'', newline])
   \<and> keepends_lines (''the cat'' @ [newline] @ ''sat'' @ [newline]) =
       [''the cat'' @ [newline], ''sat'' @ [newline]]
   \<and> output_file_basepath (\<lambda>_. ''1.0'') example_args =
       output_file_basepath (\<lambda>_. ''1.0'') example_args_mbr
   \<and> write_outputs (\<lambda>_. ''1.0'') example_fs_no_dir example_args [''the cat'', ''sat''] =
       (example_fs_no_dir, Inl (FileNotFoundError ''out/ckpt.model.pt.samples_1.0.steps=2.txt''))"
proof -
  have nl: "\<forall>s \<in> set [''the cat'', ''sat'']. newline \<notin> set s"
    by (simp add: newline_def)
  have cfg: "model_name_or_path example_args = model_name_or_path example_args_mbr \<and>
      top_p example_args = top_p example_args_mbr \<and>
      diffusion_steps example_args = diffusion_steps example_args_mbr \<and>
      out_dir example_args = out_dir example_args_mbr"
    by (simp add: example_args_def example_args_mbr_def)
  have js: "json_dumps [''the cat''] = [CHR ''['', dquote] @ ''the cat'' @ [dquote, CHR '']'']"
    "json_dumps [''sat''] = [CHR ''['', dquote] @ ''sat'' @ [dquote, CHR '']'']"
    by (simp_all add: json_dumps_def encode_basestring_ascii_def escape_char_def backslash_def
        dquote_def)
  from write_outputs_format [of "example_fs []" "\<lambda>_. ''1.0''" example_args "[''the cat'', ''sat'']"
      example_args_mbr] nl cfg example_can_create(1) [of "[]"]
  have t: "contents (fst (write_outputs (\<lambda>_. ''1.0'') (example_fs []) example_args [''the cat'', ''sat'']))
        (output_file_basepath (\<lambda>_. ''1.0'') example_args @ ''.txt'') =
      Some (concat (map (\<lambda>s. s @ [newline]) [''the cat'', ''sat'']))"
    and j: "contents (fst (write_outputs (\<lambda>_. ''1.0'') (example_fs []) example_args [''the cat'', ''sat'']))
        (output_file_basepath (\<lambda>_. ''1.0'') example_args @ ''.json'') =
      Some (concat (map (\<lambda>s. json_dumps [s] @ [newline]) [''the cat'', ''sat'']))"
    and l: "keepends_lines (concat (map (\<lambda>s. s @ [newline]) [''the cat'', ''sat''])) =
      map (\<lambda>s. s @ [newline]) [''the cat'', ''sat'']"
    and p: "output_file_basepath (\<lambda>_. ''1.0'') example_args =
      output_file_basepath (\<lambda>_. ''1.0'') example_args_mbr"
    by blast+
  from write_outputs_format [of example_fs_no_dir "\<lambda>_. ''1.0''" example_args "[''the cat'', ''sat'']"
      example_args_mbr] example_cannot_create
  have n: "write_outputs (\<lambda>_. ''1.0'') example_fs_no_dir example_args [''the cat'', ''sat''] =
      (example_fs_no_dir, Inl (FileNotFoundError (output_file_basepath (\<lambda>_. ''1.0'') example_args @ ''.txt'')))"
    by blast
  from t j l p n show ?thesis
    by (simp add: example_basepath js)
qed

text \<open>Against the claim as the specification words it: a sentence that holds a line
  feed takes two lines of the text file, and without the directory \<open>out\<close> no file is
  written at all.\<close>

theorem write_outputs_format_counterexample:
  "contents (fst (write_outputs (\<lambda>_. ''1.0'') (example_fs []) example_args
         [[CHR ''a'', newline, CHR ''b'']]))
       ''out/ckpt.model.pt.samples_1.0.steps=2.txt'' =
     Some [CHR ''a'', newline, CHR ''b'', newline]
   \<and> keepends_lines [CHR ''a'', newline, CHR ''b'', newline] =
       [[CHR ''a'', newline], [CHR ''b'', newline]]
   \<and> length [[CHR ''a'', newline], [CHR ''b'', newline]] \<noteq> length [[CHR ''a'', newline, CHR ''b'']]
   \<and> write_outputs (\<lambda>_. ''1.0'') example_fs_no_dir example_args [''the cat''] =
       (example_fs_no_dir, Inl (FileNotFoundError ''out/ckpt.model.pt.samples_1.0.steps=2.txt''))
   \<and> contents example_fs_no_dir ''out/ckpt.model.pt.samples_1.0.steps=2.txt'' = None"
proof -
  have "write_outputs (\<lambda>_. ''1.0'') example_fs_no_dir example_args [''the cat''] =
       (example_fs_no_dir, Inl (FileNotFoundError (output_file_basepath (\<lambda>_. ''1.0'') example_args @ ''.txt'')))"
    by (rule write_outputs_not_opened [OF example_cannot_create])
  moreover have "contents (fst (write_outputs (\<lambda>_. ''1.0'') (example_fs []) example_args
         [[CHR ''a'', newline, CHR ''b'']]))
       (output_file_basepath (\<lambda>_. ''1.0'') example_args @ ''.txt'') =
     Some [CHR ''a'', newline, CHR ''b'', newline]"
    by (simp add: write_outputs_opened [OF example_can_create(1)])
  ultimately show ?thesis
    by (simp add: example_basepath keepends_lines_def newline_def example_fs_no_dir_def)
qed

text \<open>
  Claim C10. When \<open>write_outputs\<close> ends with the \<open>AssertionError\<close> of the sanity check,
  and more generally however it ends once the text file could be opened, the file system
  that it leaves behind holds the text file and the JSON file with a line for every
  sentence: nothing is removed or rolled back.
\<close>

theorem write_outputs_persists:
  "(write_outputs fmt fsys a sentences = (fsys', Inl (AssertionError i sim ref_toks gen_toks common))
      \<longrightarrow> contents fsys' (output_file_basepath fmt a @ ''.txt'') =
            Some (concat (map (\<lambda>s. s @ [newline]) sentences))
          \<and> contents fsys' (output_file_basepath fmt a @ ''.json'') =
            Some (concat (map (\<lambda>s. json_dumps [s] @ [newline]) sentences)))
   \<and> (write_outputs fmt fsys a sentences = (fsys', outcome) \<and>
        can_create fsys (output_file_basepath fmt a @ ''.txt'')
      \<longrightarrow> contents fsys' (output_file_basepath fmt a @ ''.txt'') =
            Some (concat (map (\<lambda>s. s @ [newline]) sentences))
          \<and> contents fsys' (output_file_basepath fmt a @ ''.json'') =
            Some (concat (map (\<lambda>s. json_dumps [s] @ [newline]) sentences)))"
proof -
  have written: "contents fsys' (output_file_basepath fmt a @ ''.txt'') =
            Some (concat (map (\<lambda>s. s @ [newline]) sentences))
          \<and> contents fsys' (output_file_basepath fmt a @ ''.json'') =
            Some (concat (map (\<lambda>s. json_dumps [s] @ [newline]) sentences))"
    if run: "write_outputs fmt fsys a sentences = (fsys', outcome)"
      and c: "can_create fsys (output_file_basepath fmt a @ ''.txt'')"
    for outcome
  proof -
    from run have "fsys' = fst (write_outputs fmt fsys a sentences)" by simp
    then show ?thesis by (simp add: write_outputs_opened [OF c])
  qed
  have opened: "can_create fsys (output_file_basepath fmt a @ ''.txt'')"
    if run: "write_outputs fmt fsys a sentences =
        (fsys', Inl (AssertionError i sim ref_toks gen_toks common))"
  proof -
    from run have "snd (write_outputs fmt fsys a sentences) \<noteq>
        Inl (FileNotFoundError (output_file_basepath fmt a @ ''.txt''))"
      by simp
    then show ?thesis by (rule write_outputs_validated)
  qed
  from written opened show ?thesis by blast
qed

text \<open>The theorem on a run whose sanity check fails with similarity 1/2.\<close>

theorem write_outputs_persists_witness:
  "write_outputs (\<lambda>_. ''1.0'') (example_fs (''the cat sat'' @ [newline])) example_args
       [''the cat sit''] =
     ((example_fs (''the cat sat'' @ [newline]))
        \<lparr>contents := (contents (example_fs (''the cat sat'' @ [newline])))
           (''out/ckpt.model.pt.samples_1.0.steps=2.txt'' \<mapsto> ''the cat sit'' @ [newline],
            ''out/ckpt.model.pt.samples_1.0.steps=2.json'' \<mapsto>
               [CHR ''['', dquote] @ ''the cat sit'' @ [dquote, CHR '']'', newline])\<rparr>,
      Inl (AssertionError 0 (1 / 2) {''the'', ''cat'', ''sat''} {''the'', ''cat'', ''sit''}
            {''the'', ''cat''}))
   \<and> contents ((example_fs (''the cat sat'' @ [newline]))
        \<lparr>contents := (contents (example_fs (''the cat sat'' @ [newline])))
           (''out/ckpt.model.pt.samples_1.0.steps=2.txt'' \<mapsto> ''the cat sit'' @ [newline],
            ''out/ckpt.model.pt.samples_1.0.steps=2.json'' \<mapsto>
               [CHR ''['', dquote] @ ''the cat sit'' @ [dquote, CHR '']'', newline])\<rparr>)
        (output_file_basepath (\<lambda>_. ''1.0'') example_args @ ''.txt'') =
      Some (concat (map (\<lambda>s. s @ [newline]) [''the cat sit'']))
   \<and> can_create (example_fs (''the cat sat'' @ [newline]))
        (output_file_basepath (\<lambda>_. ''1.0'') example_args @ ''.txt'')"
  using example_run example_can_create(1) [of "''the cat sat'' @ [newline]"]
    write_outputs_persists [of "\<lambda>_. ''1.0''" "example_fs (''the cat sat'' @ [newline])"
      example_args "[''the cat sit'']"
      "(example_fs (''the cat sat'' @ [newline]))
        \<lparr>contents := (contents (example_fs (''the cat sat'' @ [newline])))
           (''out/ckpt.model.pt.samples_1.0.steps=2.txt'' \<mapsto> ''the cat sit'' @ [newline],
            ''out/ckpt.model.pt.samples_1.0.steps=2.json'' \<mapsto>
               [CHR ''['', dquote] @ ''the cat sit'' @ [dquote, CHR '']'', newline])\<rparr>"
      0 "1 / 2" "{''the'', ''cat'', ''sat''}" "{''the'', ''cat'', ''sit''}" "{''the'', ''cat''}"
      "Inl (AssertionError 0 (1 / 2) {''the'', ''cat'', ''sat''} {''the'', ''cat'', ''sit''}
            {''the'', ''cat''})"]
  by blast

text \<open>
  Claim C5, as the code has it. The reference corpus is read from the fixed relative path
  \<open>generation_outputs_emb128/two_steps_sanity_check.txt\<close>, whatever the run
  configuration: once the output files could be opened, the outcome of \<open>write_outputs\<close>
  is that of the sanity check against the lines of the file at that path, a missing file
  there is a \<open>FileNotFoundError\<close>, and two configurations give the same outcome on the
  same file system and sentences.
\<close>

theorem sanity_reference_fixed_path:
  "(can_create fsys (output_file_basepath fmt a @ ''.txt'')
      \<longrightarrow> snd (write_outputs fmt fsys a sentences) =
            (case contents fsys ''generation_outputs_emb128/two_steps_sanity_check.txt'' of
               None \<Rightarrow> Inl (FileNotFoundError ''generation_outputs_emb128/two_steps_sanity_check.txt'')
             | Some content \<Rightarrow> sanity_check 0 (readlines content) sentences))
   \<and> (can_create fsys (output_file_basepath fmt a @ ''.txt'') \<and>
        can_create fsys (output_file_basepath fmt' b @ ''.txt'')
      \<longrightarrow> snd (write_outputs fmt fsys a sentences) = snd (write_outputs fmt' fsys b sentences))"
proof (intro conjI impI)
  assume c: "can_create fsys (output_file_basepath fmt a @ ''.txt'')"
  show "snd (write_outputs fmt fsys a sentences) =
            (case contents fsys ''generation_outputs_emb128/two_steps_sanity_check.txt'' of
               None \<Rightarrow> Inl (FileNotFoundError ''generation_outputs_emb128/two_steps_sanity_check.txt'')
             | Some content \<Rightarrow> sanity_check 0 (readlines content) sentences)"
    by (simp add: write_outputs_opened [OF c] sanity_check_path_def split: option.splits)
next
  assume "can_create fsys (output_file_basepath fmt a @ ''.txt'') \<and>
        can_create fsys (output_file_basepath fmt' b @ ''.txt'')"
  then have ca: "can_create fsys (output_file_basepath fmt a @ ''.txt'')"
    and cb: "can_create fsys (output_file_basepath fmt' b @ ''.txt'')"
    by simp_all
  show "snd (write_outputs fmt fsys a sentences) = snd (write_outputs fmt' fsys b sentences)"
    by (simp add: write_outputs_opened [OF ca] write_outputs_opened [OF cb])
qed

text \<open>The theorem on two configurations and a reference file that agrees with the
  sentence.\<close>

theorem sanity_reference_fixed_path_witness:
  "snd (write_outputs (\<lambda>_. ''1.0'') (example_fs (''the cat sat'' @ [newline])) example_args
          [''the cat sat'']) = Inr ()
   \<and> snd (write_outputs (\<lambda>_. ''0.5'') (example_fs (''the cat sat'' @ [newline])) example_args_mbr
          [''the cat sat'']) = Inr ()"
proof -
  let ?fs = "example_fs (''the cat sat'' @ [newline])"
  have sc: "sanity_check 0 [''the cat sat'' @ [newline]] [''the cat sat''] = Inr ()"
    by (simp add: toks_def split_def isspace_def strip_def Let_def newline_def)
  from sanity_reference_fixed_path [of ?fs "\<lambda>_. ''1.0''" example_args "[''the cat sat'']"
      "\<lambda>_. ''0.5''" example_args_mbr]
    example_can_create [of "''the cat sat'' @ [newline]"]
  have one: "snd (write_outputs (\<lambda>_. ''1.0'') ?fs example_args [''the cat sat'']) =
      (case contents ?fs ''generation_outputs_emb128/two_steps_sanity_check.txt'' of
         None \<Rightarrow> Inl (FileNotFoundError ''generation_outputs_emb128/two_steps_sanity_check.txt'')
       | Some content \<Rightarrow> sanity_check 0 (readlines content) [''the cat sat''])"
    and two: "snd (write_outputs (\<lambda>_. ''1.0'') ?fs example_args [''the cat sat'']) =
      snd (write_outputs (\<lambda>_. ''0.5'') ?fs example_args_mbr [''the cat sat''])"
    by blast+
  have "(case contents ?fs ''generation_outputs_emb128/two_steps_sanity_check.txt'' of
         None \<Rightarrow> Inl (FileNotFoundError ''generation_outputs_emb128/two_steps_sanity_check.txt'')
       | Some content \<Rightarrow> sanity_check 0 (readlines content) [''the cat sat'']) =
      sanity_check 0 (readlines (''the cat sat'' @ [newline])) [''the cat sat'']"
    by (simp add: example_fs_def)
  also have "\<dots> = Inr ()"
    by (simp only: example_sanity_lines sc)
  finally have r: "(case contents ?fs ''generation_outputs_emb128/two_steps_sanity_check.txt'' of
         None \<Rightarrow> Inl (FileNotFoundError ''generation_outputs_emb128/two_steps_sanity_check.txt'')
       | Some content \<Rightarrow> sanity_check 0 (readlines content) [''the cat sat'']) = Inr ()" .
  from one r have first: "snd (write_outputs (\<lambda>_. ''1.0'') ?fs example_args [''the cat sat'']) = Inr ()"
    by (rule trans)
  from two [symmetric] first
  have "snd (write_outputs (\<lambda>_. ''0.5'') ?fs example_args_mbr [''the cat sat'']) = Inr ()"
    by (rule trans)
  with first show ?thesis by (rule conjI)
qed

text \<open>Against the claim as the specification words it: under a configuration that names
  no reference file, the sentence is checked against the file at the fixed path, and
  without a file at that path the run ends with a \<open>FileNotFoundError\<close> for it.\<close>

theorem sanity_reference_fixed_path_counterexample:
  "snd (write_outputs (\<lambda>_. ''1.0'')
          \<lparr>directories = {''out''},
           contents = [''generation_outputs_emb128/two_steps_sanity_check.txt'' \<mapsto>
                         ''the cat sat'' @ [newline]]\<rparr>
          example_args [''the cat sit'']) =
     Inl (AssertionError 0 (1 / 2) {''the'', ''cat'', ''sat''} {''the'', ''cat'', ''sit''}
           {''the'', ''cat''})
   \<and> snd (write_outputs (\<lambda>_. ''1.0'') \<lparr>directories = {''out''}, contents = Map.empty\<rparr>
          example_args [''the cat sit'']) =
     Inl (FileNotFoundError ''generation_outputs_emb128/two_steps_sanity_check.txt'')"
proof -
  have c: "can_create \<lparr>directories = {''out''}, contents = m\<rparr>
      (output_file_basepath (\<lambda>_. ''1.0'') example_args @ ''.txt'')" for m
    by (simp add: can_create_def example_basepath example_dirname)
  show ?thesis
    using example_sanity_lines example_failure
    by (simp add: write_outputs_opened [OF c] sanity_check_path_def)
qed

end
